theory Spec2Isabelle
  imports Main "HOL-Library.Word" "HOL-Library.Signed_Division"
begin

section \<open>PixelPendant: camera arbitration, recording and streaming sessions\<close>

text \<open>
  A shallow embedding of \<^verbatim>\<open>PixelPendant.ino\<close>. The firmware keeps its state in
  global variables; the model collects them in one record and every function of
  the sketch becomes a function from the state before the call to the state
  after it. What the hardware answers during a call (the clock, the camera
  driver, the SD card, the camera mutex) is not decided by the sketch, so each
  function takes those answers as an argument of type \<open>env\<close>.
\<close>

subsection \<open>Data model\<close>

type_synonym bytes = "8 word list"
type_synonym millis = "32 word"

text \<open>Calls on the camera driver and on the camera mutex, in the order made.\<close>

datatype cam_op =
    SemTake bool      \<comment> \<open>\<^verbatim>\<open>xSemaphoreTake(camMutex, ..)\<close> and its result\<close>
  | FbGet bool        \<comment> \<open>\<^verbatim>\<open>esp_camera_fb_get()\<close>; \<open>True\<close> when a frame came back\<close>
  | FbReturn          \<comment> \<open>\<^verbatim>\<open>esp_camera_fb_return(fb)\<close>\<close>
  | SemGive           \<comment> \<open>\<^verbatim>\<open>xSemaphoreGive(camMutex)\<close>\<close>

text \<open>Calls on the WiFi radio made by the connection supervisor.\<close>

datatype wifi_op =
    WifiDisconnect bool   \<comment> \<open>\<^verbatim>\<open>WiFi.disconnect(wifioff)\<close>\<close>
  | WifiBegin             \<comment> \<open>\<^verbatim>\<open>WiFi.begin(WIFI_SSID, WIFI_PASSWORD)\<close>\<close>
  | ConnectWiFi           \<comment> \<open>a call of \<^verbatim>\<open>connectWiFi()\<close>\<close>
  | MdnsBegin             \<comment> \<open>\<^verbatim>\<open>MDNS.begin("esp32-camera")\<close>\<close>

record state =
  isRecording :: bool
  videoFile :: "string option"        \<comment> \<open>path of the open video file, \<open>None\<close> for an invalid handle\<close>
  videoStartTime :: millis
  frameCount :: int
  thumbnailSaved :: bool
  currentThumbPath :: string
  streamActive :: bool
  captureRequested :: bool
  streamFrameBuffer :: bytes
  lastCapturedImage :: bytes
  galleryDirty :: bool
  lastWiFiCheck :: millis
  wifiConnected :: bool
  consecutiveWiFiFailures :: int
  mdnsStarted :: bool
  sd :: "string \<rightharpoonup> bytes"             \<comment> \<open>files on the SD card, by path\<close>
  ws_sent :: "string list"            \<comment> \<open>texts sent to the WebSocket clients, oldest first\<close>
  http_sent :: "(nat \<times> string) list"  \<comment> \<open>\<^verbatim>\<open>server.send(code, type, body)\<close>: code and body\<close>
  client_out :: bytes                 \<comment> \<open>bytes written to the stream client\<close>
  cam_ops :: "cam_op list"
  wifi_ops :: "wifi_op list"

text \<open>What the hardware answers during one call.\<close>

record env =
  now :: millis                       \<comment> \<open>\<^verbatim>\<open>millis()\<close>\<close>
  timestamp :: string                 \<comment> \<open>\<^verbatim>\<open>getTimestamp()\<close>, first call\<close>
  timestamp2 :: string                \<comment> \<open>\<^verbatim>\<open>getTimestamp()\<close>, second call\<close>
  sem_ok :: bool                      \<comment> \<open>the mutex was obtained within the timeout\<close>
  stale_fb1 :: bool                   \<comment> \<open>first discarded \<^verbatim>\<open>esp_camera_fb_get()\<close> was not null\<close>
  stale_fb2 :: bool
  fb :: "bytes option"                \<comment> \<open>the frame of \<^verbatim>\<open>esp_camera_fb_get()\<close>, \<open>None\<close> for null\<close>
  open_ok :: "string \<Rightarrow> bool"          \<comment> \<open>\<^verbatim>\<open>SD.open(path, FILE_WRITE)\<close> gives a valid file\<close>
  remove_ok :: "string \<Rightarrow> bool"        \<comment> \<open>\<^verbatim>\<open>SD.remove(path)\<close> succeeds\<close>
  root_ok :: bool                     \<comment> \<open>\<^verbatim>\<open>SD.open("/")\<close> gives a valid directory\<close>
  root_entries :: "(string \<times> bool) list"  \<comment> \<open>its entries: name, and whether a directory\<close>
  now2 :: millis                      \<comment> \<open>\<^verbatim>\<open>millis()\<close>, second call\<close>
  wifi_up :: bool                     \<comment> \<open>\<^verbatim>\<open>WiFi.status() == WL_CONNECTED\<close>\<close>
  wifi_up2 :: bool                    \<comment> \<open>the same test, second call\<close>
  mdns_ok :: bool                     \<comment> \<open>\<^verbatim>\<open>MDNS.begin(..)\<close> succeeds\<close>
  connect_ok :: bool                  \<comment> \<open>\<^verbatim>\<open>connectWiFi()\<close> finds the link up after its wait\<close>

text \<open>
  The value of a C++ \<^verbatim>\<open>int\<close> after an arithmetic step: 32 bits, two's complement,
  wrapping around as the ESP32 does.
\<close>

definition int32 :: "int \<Rightarrow> int" where
  "int32 x = (x + 2147483648) mod 4294967296 - 2147483648"

definition recordedFPS :: int where
  "recordedFPS = 15"

subsection \<open>Strings and files\<close>

definition digit :: "nat \<Rightarrow> char" where
  "digit d = ''0123456789'' ! d"

function dec :: "nat \<Rightarrow> string" where
  "dec n = (if n < 10 then [digit n] else dec (n div 10) @ [digit (n mod 10)])"
  by pat_completeness auto
termination
  by (relation "measure id") auto

declare dec.simps [simp del]

text \<open>\<^verbatim>\<open>print(int)\<close> and \<^verbatim>\<open>printf("%d")\<close>.\<close>

definition print_int :: "int \<Rightarrow> string" where
  "print_int i = (if i < 0 then CHR ''-'' # dec (nat (- i)) else dec (nat i))"

definition crlf :: string where
  "crlf = [CHR 0x0D, CHR 0x0A]"

definition bytes_of :: "string \<Rightarrow> bytes" where
  "bytes_of str = map of_char str"

text \<open>
  \<^verbatim>\<open>String::replace(find, replace)\<close> of the Arduino core, for a replacement that is
  not longer than the text it replaces (both uses in the sketch): every
  occurrence found scanning from the left is replaced, and the scan goes on
  after the replaced text.
\<close>

function str_replace :: "string \<Rightarrow> string \<Rightarrow> string \<Rightarrow> string" where
  "str_replace f r str =
     (if f = [] \<or> str = [] then str
      else if take (length f) str = f then r @ str_replace f r (drop (length f) str)
      else hd str # str_replace f r (tl str))"
  by pat_completeness auto
termination
  by (relation "measure (\<lambda>(f, r, str). length str)") auto

declare str_replace.simps [simp del]

definition endsWith :: "string \<Rightarrow> string \<Rightarrow> bool" where
  "endsWith str suf =
     (length suf \<le> length str \<and> drop (length str - length suf) str = suf)"

text \<open>
  \<^verbatim>\<open>SD.open(path, FILE_WRITE)\<close>: on success the file exists and is empty, and the
  handle is its path.
\<close>

definition sd_open_write :: "env \<Rightarrow> string \<Rightarrow> state \<Rightarrow> string option \<times> state" where
  "sd_open_write e path s =
     (if open_ok e path then (Some path, s\<lparr>sd := (sd s)(path \<mapsto> [])\<rparr>) else (None, s))"

text \<open>A write through an open handle appends to the file.\<close>

definition file_write :: "string \<Rightarrow> bytes \<Rightarrow> state \<Rightarrow> state" where
  "file_write path bs s =
     s\<lparr>sd := (sd s)(path \<mapsto> (case sd s path of None \<Rightarrow> [] | Some old \<Rightarrow> old) @ bs)\<rparr>"

definition file_print :: "string \<Rightarrow> string \<Rightarrow> state \<Rightarrow> state" where
  "file_print path str s = file_write path (bytes_of str) s"

definition sendToAllClients :: "string \<Rightarrow> state \<Rightarrow> state" where
  "sendToAllClients json s = s\<lparr>ws_sent := ws_sent s @ [json]\<rparr>"

definition server_send :: "nat \<Rightarrow> string \<Rightarrow> state \<Rightarrow> state" where
  "server_send code body s = s\<lparr>http_sent := http_sent s @ [(code, body)]\<rparr>"

text \<open>The status texts of the sketch.\<close>

definition msg_recording_started :: string where
  \<open>msg_recording_started = ''{"action":"recording_status","status":"started"}''\<close>

definition msg_recording_stopped :: string where
  \<open>msg_recording_stopped = ''{"action":"recording_status","status":"stopped"}''\<close>

definition msg_refresh_gallery :: string where
  \<open>msg_refresh_gallery = ''{"action":"refresh_gallery"}''\<close>

definition msg_stream_started :: string where
  \<open>msg_stream_started = ''{"stream":"started"}''\<close>

definition msg_stream_stopped :: string where
  \<open>msg_stream_stopped = ''{"stream":"stopped"}''\<close>

definition cam :: "cam_op \<Rightarrow> state \<Rightarrow> state" where
  "cam opn s = s\<lparr>cam_ops := cam_ops s @ [opn]\<rparr>"

subsection \<open>Recording session\<close>

definition startRecording :: "env \<Rightarrow> state \<Rightarrow> state" where
  "startRecording e s =
     (if isRecording s then s
      else
        let path = ''/'' @ timestamp e @ ''.mjpeg'';
            (h, s1) = sd_open_write e path s;
            s2 = s1\<lparr>videoFile := h\<rparr>
        in if h = None then s2
           else sendToAllClients msg_recording_started
                  (s2\<lparr>isRecording := True,
                      frameCount := 0,
                      videoStartTime := now e,
                      thumbnailSaved := False,
                      currentThumbPath := ''/thumb_'' @ timestamp2 e @ ''.jpg''\<rparr>))"

text \<open>\<^verbatim>\<open>frameCount / recordedFPS\<close> on C++ \<^verbatim>\<open>int\<close>: the quotient truncated towards zero.\<close>

definition durationSec :: "state \<Rightarrow> int" where
  "durationSec s = frameCount s sdiv recordedFPS"

definition metaPath :: "state \<Rightarrow> string" where
  "metaPath s = str_replace ''.jpg'' ''.txt'' (str_replace ''thumb_'' ''meta_'' (currentThumbPath s))"

definition stopRecording :: "env \<Rightarrow> state \<Rightarrow> state" where
  "stopRecording e s =
     (if \<not> isRecording s then s
      else
        let s1 = s\<lparr>isRecording := False\<rparr>;
            s2 = (if videoFile s1 \<noteq> None then s1\<lparr>videoFile := None\<rparr> else s1);
            (meta, s3) = sd_open_write e (metaPath s2) s2;
            s4 = (case meta of
                    Some p \<Rightarrow> file_print p (print_int (durationSec s3)) s3
                  | None \<Rightarrow> s3);
            s5 = s4\<lparr>galleryDirty := True\<rparr>
        in sendToAllClients msg_refresh_gallery
             (sendToAllClients msg_recording_stopped s5))"

text \<open>
  \<^verbatim>\<open>recordFrame\<close>; the \<^verbatim>\<open>flush()\<close> after every 20th frame changes nothing
  that the model holds.
\<close>

definition recordFrame :: "env \<Rightarrow> bytes option \<Rightarrow> state \<Rightarrow> state" where
  "recordFrame e fbo s =
     (if \<not> isRecording s \<or> fbo = None \<or> videoFile s = None then s
      else
        let buf = the fbo;
            vf = the (videoFile s);
            s1 = (if \<not> thumbnailSaved s then
                    (case sd_open_write e (currentThumbPath s) s of
                       (Some t, s') \<Rightarrow> (file_write t buf s')\<lparr>thumbnailSaved := True\<rparr>
                     | (None, s') \<Rightarrow> s')
                  else s);
            s2 = file_print vf (''--frame'' @ crlf) s1;
            s3 = file_print vf (''Content-Type: image/jpeg'' @ crlf) s2;
            s4 = file_print vf (''Content-Length: '' @ dec (length buf) @ crlf @ crlf) s3;
            s5 = file_write vf buf s4;
            s6 = file_print vf crlf s5
        in s6\<lparr>frameCount := int32 (frameCount s6 + 1)\<rparr>)"

text \<open>
  One turn of the endless loop of \<^verbatim>\<open>recordingCaptureTask\<close> (the delays and the
  serial log leave the state alone).
\<close>

definition recordingCaptureTask :: "env \<Rightarrow> state \<Rightarrow> state" where
  "recordingCaptureTask e s =
     (if isRecording s \<and> videoFile s \<noteq> None then
        if \<not> streamActive s then
          if sem_ok e then
            let s1 = cam (SemTake True) s in
            (case fb e of
               Some buf \<Rightarrow>
                 cam SemGive (cam FbReturn (recordFrame e (Some buf) (cam (FbGet True) s1)))
             | None \<Rightarrow> cam SemGive (cam (FbGet False) s1))
          else cam (SemTake False) s
        else s
      else s)"

subsection \<open>Frame source\<close>

definition captureStreamFrame :: "env \<Rightarrow> state \<Rightarrow> state" where
  "captureStreamFrame e s =
     (if sem_ok e then
        let s1 = cam (SemTake True) s in
        (case fb e of
           None \<Rightarrow> cam SemGive (cam (FbGet False) s1)
         | Some buf \<Rightarrow>
             let s2 = (cam (FbGet True) s1)\<lparr>streamFrameBuffer := buf\<rparr>;
                 s3 = (if isRecording s2 then recordFrame e (Some buf) s2 else s2);
                 s4 = (if captureRequested s3 then
                         let path = ''/'' @ timestamp e @ ''.jpg'';
                             s' = (case sd_open_write e path s3 of
                                     (Some f, sf) \<Rightarrow>
                                       sendToAllClients msg_refresh_gallery
                                         ((file_write f buf sf)\<lparr>galleryDirty := True\<rparr>)
                                   | (None, sf) \<Rightarrow> sf)
                         in s'\<lparr>captureRequested := False\<rparr>
                       else s3)
             in cam SemGive (cam FbReturn s4))
      else cam (SemTake False) s)"

text \<open>The two frames \<^verbatim>\<open>captureFrame\<close> fetches and hands back to get a fresh one.\<close>

definition discard_stale :: "bool \<Rightarrow> state \<Rightarrow> state" where
  "discard_stale got s = (if got then cam FbReturn (cam (FbGet True) s) else cam (FbGet False) s)"

definition captureFrame :: "env \<Rightarrow> state \<Rightarrow> state" where
  "captureFrame e s =
     (if streamActive s then s\<lparr>captureRequested := True\<rparr>
      else if sem_ok e then
        let s1 = cam (SemTake True) s;
            s2 = discard_stale (stale_fb2 e) (discard_stale (stale_fb1 e) s1)
        in (case fb e of
              None \<Rightarrow> cam SemGive (cam (FbGet False) s2)
            | Some buf \<Rightarrow>
                let s3 = cam (FbGet True) s2;
                    path = ''/'' @ timestamp e @ ''.jpg'';
                    s4 = (case sd_open_write e path s3 of
                            (Some f, sf) \<Rightarrow>
                              (file_write f buf sf)\<lparr>lastCapturedImage := buf, galleryDirty := True\<rparr>
                          | (None, sf) \<Rightarrow> sf)
                in sendToAllClients msg_refresh_gallery (cam SemGive (cam FbReturn s4)))
      else sendToAllClients msg_refresh_gallery (cam (SemTake False) s))"

subsection \<open>Deleting files\<close>

definition sd_exists :: "string \<Rightarrow> state \<Rightarrow> bool" where
  "sd_exists path s = (sd s path \<noteq> None)"

text \<open>\<^verbatim>\<open>SD.remove(path)\<close>: the result, and the card afterwards.\<close>

definition sd_remove :: "env \<Rightarrow> string \<Rightarrow> state \<Rightarrow> bool \<times> state" where
  "sd_remove e path s =
     (if remove_ok e path \<and> sd_exists path s then (True, s\<lparr>sd := (sd s)(path := None)\<rparr>)
      else (False, s))"

text \<open>The argument is \<^verbatim>\<open>server.arg("name")\<close>, \<open>None\<close> when the request has none.\<close>

definition handleDeleteImage :: "env \<Rightarrow> string option \<Rightarrow> state \<Rightarrow> state" where
  \<open>handleDeleteImage e arg s =
     (case arg of
        Some name \<Rightarrow>
          let path = ''/'' @ name in
          if sd_exists path s then
            (case sd_remove e path s of
               (True, s1) \<Rightarrow> server_send 200 ''{"status":"deleted"}'' (s1\<lparr>galleryDirty := True\<rparr>)
             | (False, s1) \<Rightarrow> server_send 500 ''{"status":"failed to delete"}'' s1)
          else server_send 404 ''{"status":"file not found"}'' s
      | None \<Rightarrow> server_send 400 ''{"status":"missing name"}'' s)\<close>

fun delete_entries :: "env \<Rightarrow> (string \<times> bool) list \<Rightarrow> state \<Rightarrow> state" where
  "delete_entries e [] s = s"
| "delete_entries e ((fileName, isDir) # rest) s =
     delete_entries e rest
       (if \<not> isDir \<and> (endsWith fileName ''.jpg'' \<or> endsWith fileName ''.mjpeg'')
        then snd (sd_remove e (''/'' @ fileName) s) else s)"

definition handleDeleteAll :: "env \<Rightarrow> state \<Rightarrow> state" where
  \<open>handleDeleteAll e s =
     (if \<not> root_ok e then server_send 500 ''{"error":"SD Fail"}'' s
      else
        let s1 = delete_entries e (root_entries e) s;
            s2 = s1\<lparr>galleryDirty := True\<rparr>
        in sendToAllClients msg_refresh_gallery
             (server_send 200 ''{"status":"deleted_all"}'' s2))\<close>


subsection \<open>WebSocket commands\<close>

text \<open>
  The JSON document of a text message, read the way \<^verbatim>\<open>webSocketEvent\<close> reads it;
  \<open>None\<close> stands for a payload that does not deserialize.
\<close>

record ws_doc =
  action :: string
  name :: string
  param :: string
  val :: int

datatype ws_event = WsDisconnected | WsConnected | WsText "ws_doc option" | WsBin

definition msg_toggle_started :: string where
  \<open>msg_toggle_started = ''{"action":"stream_toggle","state":"started"}''\<close>

definition msg_toggle_stopped :: string where
  \<open>msg_toggle_stopped = ''{"action":"stream_toggle","state":"stopped"}''\<close>

text \<open>
  The action \<^verbatim>\<open>setting\<close> only reconfigures the sensor, which is no part of
  \<open>state\<close>; it falls under the last branch. \<^verbatim>\<open>webSocket.broadcastTXT\<close> reaches
  the same clients as \<^verbatim>\<open>sendToAllClients\<close>.
\<close>

definition webSocketEvent :: "env \<Rightarrow> ws_event \<Rightarrow> state \<Rightarrow> state" where
  "webSocketEvent e ev s =
     (case ev of
        WsText (Some doc) \<Rightarrow>
          if action doc = ''stream_start'' then s\<lparr>streamActive := True\<rparr>
          else if action doc = ''stream_stop'' then s\<lparr>streamActive := False\<rparr>
          else if action doc = ''stream_toggle'' then
            let s1 = s\<lparr>streamActive := \<not> streamActive s\<rparr>
            in sendToAllClients
                 (if streamActive s1 then msg_toggle_started else msg_toggle_stopped) s1
          else if action doc = ''capture'' then captureFrame e s
          else if action doc = ''record_start'' then startRecording e s
          else if action doc = ''record_stop'' then stopRecording e s
          else if action doc = ''delete'' then
            let path = ''/'' @ name doc in
            if sd_exists path s then
              (case sd_remove e path s of
                 (True, s1) \<Rightarrow> sendToAllClients msg_refresh_gallery s1
               | (False, s1) \<Rightarrow> s1)
            else s
          else s
      | _ \<Rightarrow> s)"

subsection \<open>Streaming session\<close>

definition target_fps :: int where
  "target_fps = 15"

definition frame_time :: int where
  "frame_time = 1000 div target_fps"

definition STREAM_TIMEOUT :: millis where
  "STREAM_TIMEOUT = 120000"

text \<open>
  What one turn of the loop of \<^verbatim>\<open>handleStream\<close> meets. The field \<open>it_dispatch\<close> is
  what \<^verbatim>\<open>server.handleClient()\<close>, \<^verbatim>\<open>webSocket.loop()\<close> and the touch poll of
  that turn do to the globals.
\<close>

record iter =
  it_connected :: bool          \<comment> \<open>\<^verbatim>\<open>client.connected()\<close> at the head of the loop\<close>
  it_head_time :: millis        \<comment> \<open>\<^verbatim>\<open>millis()\<close> of the timeout test\<close>
  it_client_valid :: bool       \<comment> \<open>the client object is valid\<close>
  it_frame_start :: millis      \<comment> \<open>\<^verbatim>\<open>frame_start_time\<close>\<close>
  it_env :: env                 \<comment> \<open>the answers to \<^verbatim>\<open>captureStreamFrame()\<close>\<close>
  it_capture_end :: millis      \<comment> \<open>\<^verbatim>\<open>millis()\<close> after the capture\<close>
  it_written :: nat             \<comment> \<open>result of \<^verbatim>\<open>client.write\<close>\<close>
  it_dispatch :: "state \<Rightarrow> state"

definition client_print :: "string \<Rightarrow> state \<Rightarrow> state" where
  "client_print str s = s\<lparr>client_out := client_out s @ bytes_of str\<rparr>"

definition client_write :: "nat \<Rightarrow> bytes \<Rightarrow> state \<Rightarrow> state" where
  "client_write written buf s = s\<lparr>client_out := client_out s @ take written buf\<rparr>"

definition send_frame :: "iter \<Rightarrow> state \<Rightarrow> state" where
  "send_frame i s =
     client_print crlf
       (client_write (it_written i) (streamFrameBuffer s)
          (client_print
             (''--frame'' @ crlf @ ''Content-Type: image/jpeg'' @ crlf @
              ''Content-Length: '' @ dec (length (streamFrameBuffer s)) @ crlf @ crlf) s))"

text \<open>
  One turn of the \<^verbatim>\<open>while\<close> loop of \<^verbatim>\<open>handleStream\<close>, on the local
  \<^verbatim>\<open>frame_skip_counter\<close> and the globals; \<open>streamStartTime\<close> is the local of
  that name. The flag of the result says that the loop is left (its condition
  is false, or a \<^verbatim>\<open>break\<close>). A \<^verbatim>\<open>continue\<close> goes to the next turn at once,
  without delivering the frame and without the dispatch.
\<close>

definition capture_time :: "iter \<Rightarrow> millis" where
  "capture_time i = it_capture_end i - it_frame_start i"

definition stream_turn :: "iter \<Rightarrow> millis \<Rightarrow> int \<times> state \<Rightarrow> bool \<times> int \<times> state" where
  "stream_turn i streamStartTime cs =
     (let frame_skip_counter = fst cs; s = snd cs in
      if \<not> (it_connected i \<and> streamActive s) then (True, frame_skip_counter, s)
      else if it_head_time i - streamStartTime > STREAM_TIMEOUT then (True, frame_skip_counter, s)
      else if \<not> it_client_valid i then (True, frame_skip_counter, s)
      else
        let s1 = captureStreamFrame (it_env i) s in
        if streamFrameBuffer s1 \<noteq> [] then
          if capture_time i > word_of_int (frame_time * 2) then
            if frame_skip_counter + 1 < 3 then (False, frame_skip_counter + 1, s1)
            else (False, 0, it_dispatch i (send_frame i s1))
          else (False, frame_skip_counter, it_dispatch i (send_frame i s1))
        else (False, frame_skip_counter, it_dispatch i s1))"

text \<open>
  The loop, one list element per turn. The result is the counter and the state
  when the loop is left, and \<open>None\<close> when the list ends with the loop still
  running.
\<close>

fun stream_loop :: "iter list \<Rightarrow> millis \<Rightarrow> int \<times> state \<Rightarrow> (int \<times> state) option" where
  "stream_loop [] streamStartTime cs = None"
| "stream_loop (i # rest) streamStartTime cs =
     (case stream_turn i streamStartTime cs of
        (True, cs') \<Rightarrow> Some cs'
      | (False, cs') \<Rightarrow> stream_loop rest streamStartTime cs')"

text \<open>
  \<^verbatim>\<open>handleStream\<close>: \<open>connected\<close> is \<^verbatim>\<open>client.connected()\<close> right after the
  request came in.
\<close>

definition handleStream :: "env \<Rightarrow> bool \<Rightarrow> iter list \<Rightarrow> state \<Rightarrow> state option" where
  "handleStream e connected turns s =
     (let s1 = sendToAllClients msg_stream_started (s\<lparr>streamActive := True\<rparr>) in
      if \<not> connected then Some (s1\<lparr>streamActive := False\<rparr>)
      else
        let s2 = client_print
                   (''HTTP/1.1 200 OK'' @ crlf @
                    ''Content-Type: multipart/x-mixed-replace; boundary=frame'' @ crlf @
                    ''Connection: close'' @ crlf @ crlf) s1
        in (case stream_loop turns (now e) (0, s2) of
              None \<Rightarrow> None
            | Some (c, s3) \<Rightarrow>
                Some (sendToAllClients msg_stream_stopped (s3\<lparr>streamActive := False\<rparr>))))"

subsection \<open>Connection supervisor\<close>

definition MAX_WIFI_RETRIES :: int where
  "MAX_WIFI_RETRIES = 3"

definition wifi :: "wifi_op list \<Rightarrow> state \<Rightarrow> state" where
  "wifi ops s = s\<lparr>wifi_ops := wifi_ops s @ ops\<rparr>"

definition connectWiFi :: "env \<Rightarrow> state \<Rightarrow> state" where
  "connectWiFi e s =
     (let s1 = wifi [ConnectWiFi, WifiBegin] s in
      if connect_ok e then s1\<lparr>wifiConnected := True, consecutiveWiFiFailures := 0\<rparr>
      else s1\<lparr>wifiConnected := False\<rparr>)"

text \<open>The periodic check at the head of \<^verbatim>\<open>loop()\<close>.\<close>

definition loop_wifi_check :: "env \<Rightarrow> state \<Rightarrow> state" where
  "loop_wifi_check e s =
     (if now e - lastWiFiCheck s > 15000 then
        let s1 = s\<lparr>lastWiFiCheck := now2 e\<rparr> in
        if wifi_up e then
          let s2 = (if \<not> wifiConnected s1
                    then s1\<lparr>wifiConnected := True, consecutiveWiFiFailures := 0\<rparr> else s1)
          in if wifi_up2 e \<and> \<not> mdnsStarted s2 then
               let s3 = wifi [MdnsBegin] s2
               in if mdns_ok e then s3\<lparr>mdnsStarted := True\<rparr> else s3
             else s2
        else
          let s2 = s1\<lparr>mdnsStarted := False\<rparr> in
          if \<not> streamActive s2 \<and> \<not> isRecording s2 then
            let s3 = s2\<lparr>wifiConnected := False,
                        consecutiveWiFiFailures := consecutiveWiFiFailures s2 + 1\<rparr>;
                s4 = wifi [WifiDisconnect False, WifiBegin] s3
            in if consecutiveWiFiFailures s4 \<ge> MAX_WIFI_RETRIES then
                 (connectWiFi e (wifi [WifiDisconnect True] s4))\<lparr>consecutiveWiFiFailures := 0\<rparr>
               else s4
          else s2\<lparr>wifiConnected := False\<rparr>
      else s)"


subsection \<open>Concrete states and answers\<close>

text \<open>The globals as their initializers leave them, with an empty card.\<close>

definition boot_state :: state where
  "boot_state =
     \<lparr>isRecording = False, videoFile = None, videoStartTime = 0, frameCount = 0,
      thumbnailSaved = False, currentThumbPath = [], streamActive = False,
      captureRequested = False, streamFrameBuffer = [], lastCapturedImage = [],
      galleryDirty = True, lastWiFiCheck = 0, wifiConnected = False,
      consecutiveWiFiFailures = 0, mdnsStarted = False, sd = Map.empty, ws_sent = [],
      http_sent = [], client_out = [], cam_ops = [], wifi_ops = []\<rparr>"

text \<open>Hardware that answers every request: a frame of three bytes, a working card.\<close>

definition env_ok :: env where
  "env_ok =
     \<lparr>now = 20000, timestamp = ''t'', timestamp2 = ''t'', sem_ok = True, stale_fb1 = True,
      stale_fb2 = True, fb = Some [1, 2, 3], open_ok = (\<lambda>p. True), remove_ok = (\<lambda>p. True),
      root_ok = True, root_entries = [], now2 = 20000, wifi_up = True, wifi_up2 = True,
      mdns_ok = True, connect_ok = True\<rparr>"

text \<open>A recording of 47 frames in progress.\<close>

definition rec47 :: state where
  "rec47 = boot_state\<lparr>isRecording := True, videoFile := Some ''/t.mjpeg'', frameCount := 47,
      currentThumbPath := ''/thumb_t.jpg''\<rparr>"

text \<open>A live stream in progress, the link up.\<close>

definition streaming :: state where
  "streaming = boot_state\<lparr>streamActive := True, wifiConnected := True, mdnsStarted := True\<rparr>"

text \<open>The link is down.\<close>

definition env_down :: env where
  "env_down = env_ok\<lparr>wifi_up := False, wifi_up2 := False\<rparr>"

subsection \<open>Runs of the connection supervisor\<close>

text \<open>The calls that try to bring the link back: all but the mDNS announcement.\<close>

definition reconnects :: "wifi_op list \<Rightarrow> wifi_op list" where
  "reconnects ops = filter (\<lambda>x. x \<noteq> MdnsBegin) ops"

text \<open>Successive periodic checks, one per element.\<close>

fun supervise :: "env list \<Rightarrow> state \<Rightarrow> state" where
  "supervise [] s = s"
| "supervise (e # es) s = supervise es (loop_wifi_check e s)"

text \<open>The camera mutex is held elsewhere for longer than any timeout.\<close>

definition env_busy :: env where
  "env_busy = env_ok\<lparr>sem_ok := False\<rparr>"

text \<open>The card refuses every removal.\<close>

definition env_locked :: env where
  "env_locked = env_ok\<lparr>remove_ok := (\<lambda>p. False)\<rparr>"

text \<open>One photo on the card, and a gallery cache that is up to date.\<close>

definition cached_one :: state where
  "cached_one = boot_state\<lparr>galleryDirty := False, sd := [''/a.jpg'' \<mapsto> [1]]\<rparr>"

text \<open>A live stream that has delivered a frame before.\<close>

definition retained :: state where
  "retained = streaming\<lparr>streamFrameBuffer := [7, 8, 9]\<rparr>"

text \<open>A live stream with a still image requested.\<close>

definition requested :: state where
  "requested = streaming\<lparr>captureRequested := True\<rparr>"

text \<open>Turns of the stream loop: the capture takes 50 ms, 200 ms, or the client is gone.\<close>

definition turn_fast :: iter where
  "turn_fast = \<lparr>it_connected = True, it_head_time = 100, it_client_valid = True,
     it_frame_start = 100, it_env = env_ok, it_capture_end = 150, it_written = 3,
     it_dispatch = (\<lambda>s. s)\<rparr>"

definition turn_slow :: iter where
  "turn_slow = turn_fast\<lparr>it_capture_end := 300\<rparr>"

definition turn_gone :: iter where
  "turn_gone = turn_fast\<lparr>it_connected := False\<rparr>"

definition turn_busy :: iter where
  "turn_busy = turn_fast\<lparr>it_env := env_busy\<rparr>"

subsection \<open>Slow frames of a streaming session\<close>

text \<open>
  The test of \<^verbatim>\<open>handleStream\<close> for a slow frame: there is a frame in the buffer
  after the capture, and the capture took longer than twice \<^verbatim>\<open>frame_time\<close>.
\<close>

definition slow_frame :: "iter \<Rightarrow> state \<Rightarrow> bool" where
  "slow_frame i s =
     (streamFrameBuffer (captureStreamFrame (it_env i) s) \<noteq> [] \<and>
      capture_time i > word_of_int (frame_time * 2))"

text \<open>A turn gets past the loop condition and the two \<^verbatim>\<open>break\<close>s.\<close>

definition enters :: "iter \<Rightarrow> millis \<Rightarrow> state \<Rightarrow> bool" where
  "enters i streamStartTime s =
     (it_connected i \<and> streamActive s \<and>
      \<not> it_head_time i - streamStartTime > STREAM_TIMEOUT \<and> it_client_valid i)"

text \<open>The number of slow frames among the turns run before the loop is left.\<close>

fun slow_turns :: "iter list \<Rightarrow> millis \<Rightarrow> int \<times> state \<Rightarrow> nat" where
  "slow_turns [] streamStartTime cs = 0"
| "slow_turns (i # rest) streamStartTime cs =
     (case stream_turn i streamStartTime cs of
        (True, cs') \<Rightarrow> 0
      | (False, cs') \<Rightarrow>
          (if slow_frame i (snd cs) then 1 else 0) + slow_turns rest streamStartTime cs')"

subsection \<open>The two contexts and the camera mutex\<close>

text \<open>
  The foreground context (the \<^verbatim>\<open>loop()\<close> task, which runs \<^verbatim>\<open>captureStreamFrame\<close>
  and \<^verbatim>\<open>captureFrame\<close>) and the recording task run interleaved; a step is one
  statement of one of them. A program counter names the statement a context
  executes next. The mutex of FreeRTOS is its holder: \<^verbatim>\<open>xSemaphoreTake\<close>
  succeeds at once when there is none, otherwise it waits, and gives up when its
  timeout runs out; \<^verbatim>\<open>xSemaphoreGive\<close> leaves the mutex without a holder. The
  mutex is the one created in \<^verbatim>\<open>setup()\<close>.
\<close>

datatype ctx = Foreground | Recorder

datatype main_pc =
    M_idle                 \<comment> \<open>outside both functions\<close>
  | SF_take                \<comment> \<open>\<^verbatim>\<open>captureStreamFrame\<close>: \<^verbatim>\<open>xSemaphoreTake(camMutex, 50 ms)\<close>\<close>
  | SF_get                 \<comment> \<open>\<^verbatim>\<open>fb = esp_camera_fb_get()\<close>\<close>
  | SF_give_null           \<comment> \<open>no frame: \<^verbatim>\<open>xSemaphoreGive(camMutex); return\<close>\<close>
  | SF_effects             \<comment> \<open>copy to the stream buffer, \<^verbatim>\<open>recordFrame\<close>, still image\<close>
  | SF_return              \<comment> \<open>\<^verbatim>\<open>esp_camera_fb_return(fb)\<close>\<close>
  | SF_give                \<comment> \<open>\<^verbatim>\<open>xSemaphoreGive(camMutex)\<close>\<close>
  | CF_test                \<comment> \<open>\<^verbatim>\<open>captureFrame\<close>: \<^verbatim>\<open>if (streamActive)\<close>\<close>
  | CF_take                \<comment> \<open>\<^verbatim>\<open>xSemaphoreTake(camMutex, 100 ms)\<close>\<close>
  | CF_stale_get nat       \<comment> \<open>\<^verbatim>\<open>stale_fb = esp_camera_fb_get()\<close>, turn \<open>i\<close> of the loop\<close>
  | CF_stale_return nat    \<comment> \<open>\<^verbatim>\<open>esp_camera_fb_return(stale_fb)\<close>\<close>
  | CF_get                 \<comment> \<open>\<^verbatim>\<open>fb = esp_camera_fb_get()\<close>\<close>
  | CF_give_null           \<comment> \<open>no frame: \<^verbatim>\<open>xSemaphoreGive(camMutex); return\<close>\<close>
  | CF_save                \<comment> \<open>write the image to the card\<close>
  | CF_return              \<comment> \<open>\<^verbatim>\<open>esp_camera_fb_return(fb)\<close>\<close>
  | CF_give                \<comment> \<open>\<^verbatim>\<open>xSemaphoreGive(camMutex)\<close>\<close>
  | CF_notify              \<comment> \<open>\<^verbatim>\<open>sendToAllClients(..)\<close>\<close>

datatype rec_pc =
    R_test                 \<comment> \<open>\<^verbatim>\<open>if (isRecording && videoFile)\<close>, \<^verbatim>\<open>if (!streamActive)\<close>\<close>
  | R_take                 \<comment> \<open>\<^verbatim>\<open>xSemaphoreTake(camMutex, 50 ms)\<close>\<close>
  | R_get                  \<comment> \<open>\<^verbatim>\<open>fb = esp_camera_fb_get()\<close>\<close>
  | R_record               \<comment> \<open>\<^verbatim>\<open>recordFrame(fb)\<close>\<close>
  | R_return               \<comment> \<open>\<^verbatim>\<open>esp_camera_fb_return(fb)\<close>\<close>
  | R_give                 \<comment> \<open>\<^verbatim>\<open>xSemaphoreGive(camMutex)\<close>\<close>
  | R_delay                \<comment> \<open>\<^verbatim>\<open>vTaskDelay(40 ms)\<close>\<close>

record sys =
  holder :: "ctx option"       \<comment> \<open>who holds \<^verbatim>\<open>camMutex\<close>\<close>
  mpc :: main_pc
  rpc :: rec_pc
  g_recording :: bool          \<comment> \<open>\<^verbatim>\<open>isRecording && videoFile\<close>\<close>
  g_streamActive :: bool

text \<open>What the foreground context does when it is outside both functions.\<close>

datatype main_call =
    CallStreamFrame            \<comment> \<open>the stream loop calls \<^verbatim>\<open>captureStreamFrame()\<close>\<close>
  | CallCaptureFrame           \<comment> \<open>a command or a tap calls \<^verbatim>\<open>captureFrame()\<close>\<close>
  | SetFlags bool bool         \<comment> \<open>a command changes the recording and stream flags\<close>
  | Stay

text \<open>What is open at a step: who runs, and what the hardware answers.\<close>

record choice =
  who :: ctx
  call :: main_call
  timed_out :: bool            \<comment> \<open>a waiting \<^verbatim>\<open>xSemaphoreTake\<close> gives up now\<close>
  got_frame :: bool            \<comment> \<open>\<^verbatim>\<open>esp_camera_fb_get()\<close> returns a frame\<close>

datatype take_result = Taken | TimedOut | Waiting

definition sem_take :: "choice \<Rightarrow> sys \<Rightarrow> take_result" where
  "sem_take ch s =
     (if holder s = None then Taken else if timed_out ch then TimedOut else Waiting)"

definition main_step :: "choice \<Rightarrow> sys \<Rightarrow> sys" where
  "main_step ch s =
     (case mpc s of
        M_idle \<Rightarrow>
          (case call ch of
             CallStreamFrame \<Rightarrow> s\<lparr>mpc := SF_take\<rparr>
           | CallCaptureFrame \<Rightarrow> s\<lparr>mpc := CF_test\<rparr>
           | SetFlags r a \<Rightarrow> s\<lparr>g_recording := r, g_streamActive := a\<rparr>
           | Stay \<Rightarrow> s)
      | SF_take \<Rightarrow>
          (case sem_take ch s of
             Taken \<Rightarrow> s\<lparr>holder := Some Foreground, mpc := SF_get\<rparr>
           | TimedOut \<Rightarrow> s\<lparr>mpc := M_idle\<rparr>
           | Waiting \<Rightarrow> s)
      | SF_get \<Rightarrow> s\<lparr>mpc := (if got_frame ch then SF_effects else SF_give_null)\<rparr>
      | SF_give_null \<Rightarrow> s\<lparr>holder := None, mpc := M_idle\<rparr>
      | SF_effects \<Rightarrow> s\<lparr>mpc := SF_return\<rparr>
      | SF_return \<Rightarrow> s\<lparr>mpc := SF_give\<rparr>
      | SF_give \<Rightarrow> s\<lparr>holder := None, mpc := M_idle\<rparr>
      | CF_test \<Rightarrow> s\<lparr>mpc := (if g_streamActive s then M_idle else CF_take)\<rparr>
      | CF_take \<Rightarrow>
          (case sem_take ch s of
             Taken \<Rightarrow> s\<lparr>holder := Some Foreground, mpc := CF_stale_get 0\<rparr>
           | TimedOut \<Rightarrow> s\<lparr>mpc := CF_notify\<rparr>
           | Waiting \<Rightarrow> s)
      | CF_stale_get i \<Rightarrow>
          s\<lparr>mpc := (if got_frame ch then CF_stale_return i
                     else if i + 1 < 2 then CF_stale_get (i + 1) else CF_get)\<rparr>
      | CF_stale_return i \<Rightarrow> s\<lparr>mpc := (if i + 1 < 2 then CF_stale_get (i + 1) else CF_get)\<rparr>
      | CF_get \<Rightarrow> s\<lparr>mpc := (if got_frame ch then CF_save else CF_give_null)\<rparr>
      | CF_give_null \<Rightarrow> s\<lparr>holder := None, mpc := M_idle\<rparr>
      | CF_save \<Rightarrow> s\<lparr>mpc := CF_return\<rparr>
      | CF_return \<Rightarrow> s\<lparr>mpc := CF_give\<rparr>
      | CF_give \<Rightarrow> s\<lparr>holder := None, mpc := CF_notify\<rparr>
      | CF_notify \<Rightarrow> s\<lparr>mpc := M_idle\<rparr>)"

definition rec_step :: "choice \<Rightarrow> sys \<Rightarrow> sys" where
  "rec_step ch s =
     (case rpc s of
        R_test \<Rightarrow> s\<lparr>rpc := (if g_recording s \<and> \<not> g_streamActive s then R_take else R_test)\<rparr>
      | R_take \<Rightarrow>
          (case sem_take ch s of
             Taken \<Rightarrow> s\<lparr>holder := Some Recorder, rpc := R_get\<rparr>
           | TimedOut \<Rightarrow> s\<lparr>rpc := R_delay\<rparr>
           | Waiting \<Rightarrow> s)
      | R_get \<Rightarrow> s\<lparr>rpc := (if got_frame ch then R_record else R_give)\<rparr>
      | R_record \<Rightarrow> s\<lparr>rpc := R_return\<rparr>
      | R_return \<Rightarrow> s\<lparr>rpc := R_give\<rparr>
      | R_give \<Rightarrow> s\<lparr>holder := None, rpc := R_delay\<rparr>
      | R_delay \<Rightarrow> s\<lparr>rpc := R_test\<rparr>)"

definition step :: "choice \<Rightarrow> sys \<Rightarrow> sys" where
  "step ch s = (case who ch of Foreground \<Rightarrow> main_step ch s | Recorder \<Rightarrow> rec_step ch s)"

fun run :: "choice list \<Rightarrow> sys \<Rightarrow> sys" where
  "run [] s = s"
| "run (ch # rest) s = run rest (step ch s)"

definition sys_init :: sys where
  "sys_init = \<lparr>holder = None, mpc = M_idle, rpc = R_test,
     g_recording = False, g_streamActive = False\<rparr>"

text \<open>The statements between a successful take and the give that ends it.\<close>

fun main_inside :: "main_pc \<Rightarrow> bool" where
  "main_inside M_idle = False"
| "main_inside SF_take = False"
| "main_inside CF_test = False"
| "main_inside CF_take = False"
| "main_inside CF_notify = False"
| "main_inside _ = True"

fun rec_inside :: "rec_pc \<Rightarrow> bool" where
  "rec_inside R_test = False"
| "rec_inside R_take = False"
| "rec_inside R_delay = False"
| "rec_inside _ = True"

text \<open>The statements that call \<^verbatim>\<open>esp_camera_fb_get\<close> or \<^verbatim>\<open>esp_camera_fb_return\<close>.\<close>

fun main_at_camera :: "main_pc \<Rightarrow> bool" where
  "main_at_camera SF_get = True"
| "main_at_camera SF_return = True"
| "main_at_camera (CF_stale_get i) = True"
| "main_at_camera (CF_stale_return i) = True"
| "main_at_camera CF_get = True"
| "main_at_camera CF_return = True"
| "main_at_camera _ = False"

fun rec_at_camera :: "rec_pc \<Rightarrow> bool" where
  "rec_at_camera R_get = True"
| "rec_at_camera R_return = True"
| "rec_at_camera _ = False"

definition mutex_inv :: "sys \<Rightarrow> bool" where
  "mutex_inv s =
     ((main_inside (mpc s) \<longleftrightarrow> holder s = Some Foreground) \<and>
      (rec_inside (rpc s) \<longleftrightarrow> holder s = Some Recorder))"

text \<open>
  A schedule: a recording starts, the recorder reaches its take, the foreground
  takes the mutex for a stream frame, and the recorder waits and gives up.
\<close>

definition pick :: "ctx \<Rightarrow> main_call \<Rightarrow> choice" where
  "pick c m = \<lparr>who = c, call = m, timed_out = False, got_frame = True\<rparr>"

definition contended :: "choice list" where
  "contended =
     [pick Foreground (SetFlags True False), pick Recorder Stay,
      pick Foreground CallStreamFrame, pick Foreground Stay, pick Recorder Stay,
      (pick Recorder Stay)\<lparr>timed_out := True\<rparr>]"

text \<open>
  Another schedule: the recorder takes the mutex, and a \<^verbatim>\<open>captureFrame\<close> of the
  foreground waits for it and gives up.
\<close>

definition contended_capture :: "choice list" where
  "contended_capture =
     [pick Foreground (SetFlags True False), pick Recorder Stay, pick Recorder Stay,
      pick Foreground CallCaptureFrame, pick Foreground Stay, pick Foreground Stay,
      (pick Foreground Stay)\<lparr>timed_out := True\<rparr>]"

text \<open>The card opens no file for writing.\<close>

definition env_no_card :: env where
  "env_no_card = env_ok\<lparr>open_ok := (\<lambda>p. False)\<rparr>"

text \<open>
  The mutex is held by one context while the other stands at its take, and the
  timeout of that take runs out.
\<close>

definition held_by_recorder :: sys where
  "held_by_recorder =
     sys_init\<lparr>holder := Some Recorder, mpc := SF_take, rpc := R_get, g_recording := True\<rparr>"

definition held_by_foreground :: sys where
  "held_by_foreground =
     sys_init\<lparr>holder := Some Foreground, mpc := SF_get, rpc := R_take, g_recording := True\<rparr>"

definition give_up :: "ctx \<Rightarrow> choice" where
  "give_up c = (pick c Stay)\<lparr>timed_out := True\<rparr>"

section \<open>Properties\<close>

subsection \<open>Recording session\<close>

lemma sdiv_nonneg: "0 \<le> k \<Longrightarrow> k sdiv (15::int) = k div 15"
  by (simp add: signed_divide_int_def sgn_if)

text \<open>
  C3. When a recording with a non-negative frame count is stopped, the recorded
  rate being 15, the duration is the frame count divided by the rate, rounded
  down, and that number is what the metadata file holds once it could be
  opened; 47 frames give 3.
\<close>

theorem stopRecording_duration:
  assumes "isRecording s" and "0 \<le> frameCount s" and "open_ok e (metaPath s)"
  shows "durationSec s = frameCount s div recordedFPS \<and>
         sd (stopRecording e s) (metaPath s) =
           Some (bytes_of (print_int (frameCount s div recordedFPS)))"
proof -
  have d: "durationSec s = frameCount s div recordedFPS"
    using assms(2) by (simp add: durationSec_def recordedFPS_def sdiv_nonneg)
  have m: "metaPath (s\<lparr>isRecording := False\<rparr>) = metaPath s"
       "metaPath (s\<lparr>isRecording := False, videoFile := None\<rparr>) = metaPath s"
    by (simp_all add: metaPath_def)
  have "sd (stopRecording e s) (metaPath s) = Some (bytes_of (print_int (durationSec s)))"
    using assms(1,3)
    by (simp add: stopRecording_def Let_def m sd_open_write_def file_print_def file_write_def
        sendToAllClients_def durationSec_def)
  with d show ?thesis by simp
qed

lemma metaPath_rec47: "metaPath rec47 = ''/meta_t.txt''"
  by code_simp

lemma print_int_3: "print_int 3 = ''3''"
  by code_simp

theorem stopRecording_duration_witness:
  "isRecording rec47 \<and> 0 \<le> frameCount rec47 \<and> open_ok env_ok (metaPath rec47) \<and>
   durationSec rec47 = 3 \<and>
   sd (stopRecording env_ok rec47) ''/meta_t.txt'' = Some (bytes_of ''3'')"
proof -
  have h: "isRecording rec47" "0 \<le> frameCount rec47" "open_ok env_ok (metaPath rec47)"
    by (simp_all add: rec47_def boot_state_def env_ok_def)
  have f: "frameCount rec47 = 47" by (simp add: rec47_def)
  have q: "(47::int) div recordedFPS = 3" by (simp add: recordedFPS_def)
  show ?thesis using h stopRecording_duration [OF h]
    by (simp add: metaPath_rec47 print_int_3 f q)
qed

text \<open>
  C7. Starting while a recording is active returns the state as it was, and so
  does stopping while none is active: no file is opened, no counter or flag
  changes and nothing is sent.
\<close>

theorem recording_start_stop_noop:
  "(isRecording s \<longrightarrow> startRecording e s = s) \<and>
   (\<not> isRecording s \<longrightarrow> stopRecording e s = s)"
  by (simp add: startRecording_def stopRecording_def)

theorem recording_start_stop_noop_witness:
  "isRecording rec47 \<and> startRecording env_ok rec47 = rec47 \<and>
   \<not> isRecording boot_state \<and> stopRecording env_ok boot_state = boot_state"
  using recording_start_stop_noop [of rec47 env_ok]
    recording_start_stop_noop [of boot_state env_ok]
  by (simp add: rec47_def boot_state_def)

text \<open>
  C10. Without an active recording, without a frame, or without an open video
  file, \<open>recordFrame\<close> returns the state as it was: nothing is written to the
  video file or to the thumbnail, and the frame count and the thumbnail flag
  stay.
\<close>

theorem recordFrame_noop:
  "\<not> isRecording s \<or> fbo = None \<or> videoFile s = None \<Longrightarrow> recordFrame e fbo s = s"
  by (auto simp add: recordFrame_def)

theorem recordFrame_noop_witness:
  "\<not> isRecording boot_state \<and> recordFrame env_ok (Some [1, 2, 3]) boot_state = boot_state \<and>
   recordFrame env_ok None rec47 = rec47 \<and>
   videoFile (rec47\<lparr>videoFile := None\<rparr>) = None \<and>
   recordFrame env_ok (Some [1, 2, 3]) (rec47\<lparr>videoFile := None\<rparr>) = rec47\<lparr>videoFile := None\<rparr>"
  using recordFrame_noop [of boot_state "Some [1, 2, 3]" env_ok]
    recordFrame_noop [of rec47 None env_ok]
    recordFrame_noop [of "rec47\<lparr>videoFile := None\<rparr>" "Some [1, 2, 3]" env_ok]
  by (simp add: boot_state_def)

subsection \<open>Connection supervisor\<close>

lemma check_busy:
  assumes "streamActive s \<or> isRecording s"
  shows "reconnects (wifi_ops (loop_wifi_check e s)) = reconnects (wifi_ops s)"
    and "streamActive (loop_wifi_check e s) = streamActive s"
    and "isRecording (loop_wifi_check e s) = isRecording s"
  using assms by (auto simp add: loop_wifi_check_def Let_def wifi_def reconnects_def)

lemma check_down:
  assumes "streamActive s \<or> isRecording s" and "\<not> wifi_up e"
  shows "loop_wifi_check e s =
           (if now e - lastWiFiCheck s > 15000
            then s\<lparr>lastWiFiCheck := now2 e, mdnsStarted := False, wifiConnected := False\<rparr>
            else s)"
  using assms by (auto simp add: loop_wifi_check_def Let_def)

lemma supervise_busy:
  "streamActive s \<or> isRecording s \<Longrightarrow>
   reconnects (wifi_ops (supervise es s)) = reconnects (wifi_ops s)"
proof (induction es arbitrary: s)
  case Nil
  then show ?case by simp
next
  case (Cons e es)
  from Cons.prems have "streamActive (loop_wifi_check e s) \<or> isRecording (loop_wifi_check e s)"
    by (simp add: check_busy)
  then have "reconnects (wifi_ops (supervise es (loop_wifi_check e s))) =
             reconnects (wifi_ops (loop_wifi_check e s))"
    by (rule Cons.IH)
  with Cons.prems show ?case by (simp add: check_busy)
qed

text \<open>
  C8. While a stream or a recording is active, no run of periodic checks, in
  whatever state of the link, adds a call of \<open>WiFi.disconnect\<close>, \<open>WiFi.begin\<close>
  or \<open>connectWiFi\<close>; and a check that finds the link down only stamps the time
  of the check and marks the link (and its mDNS announcement) down.
\<close>

theorem no_reconnect_while_busy:
  assumes "streamActive s \<or> isRecording s"
  shows "reconnects (wifi_ops (supervise es s)) = reconnects (wifi_ops s) \<and>
         (\<not> wifi_up e \<longrightarrow>
            loop_wifi_check e s =
              (if now e - lastWiFiCheck s > 15000
               then s\<lparr>lastWiFiCheck := now2 e, mdnsStarted := False, wifiConnected := False\<rparr>
               else s))"
  using assms supervise_busy [of s es] check_down [of s e] by blast

theorem no_reconnect_while_busy_witness:
  "(streamActive streaming \<or> isRecording streaming) \<and> \<not> wifi_up env_down \<and>
   reconnects (wifi_ops (supervise [env_down, env_down] streaming)) = [] \<and>
   \<not> wifiConnected (loop_wifi_check env_down streaming) \<and>
   wifi_ops (supervise [env_down] boot_state) = [WifiDisconnect False, WifiBegin]"
proof -
  have h: "streamActive streaming \<or> isRecording streaming"
    by (simp add: streaming_def)
  have d: "\<not> wifi_up env_down" by (simp add: env_down_def)
  have t: "now env_down - lastWiFiCheck streaming > 15000"
    by (simp add: env_down_def env_ok_def streaming_def boot_state_def)
  have r: "reconnects (wifi_ops (supervise [env_down, env_down] streaming)) = []"
    using no_reconnect_while_busy [OF h, of "[env_down, env_down]" env_down]
    by (simp add: streaming_def boot_state_def reconnects_def)
  have c: "\<not> wifiConnected (loop_wifi_check env_down streaming)"
    using no_reconnect_while_busy [OF h, of "[]" env_down] d t by simp
  have b: "wifi_ops (supervise [env_down] boot_state) = [WifiDisconnect False, WifiBegin]"
    by (simp add: loop_wifi_check_def Let_def env_down_def env_ok_def boot_state_def wifi_def
        MAX_WIFI_RETRIES_def)
  from h d r c b show ?thesis by blast
qed

subsection \<open>Frame source\<close>

lemma recordFrame_keeps:
  "captureRequested (recordFrame e fbo s) = captureRequested s"
  "galleryDirty (recordFrame e fbo s) = galleryDirty s"
  "streamFrameBuffer (recordFrame e fbo s) = streamFrameBuffer s"
  by (simp_all add: recordFrame_def Let_def file_print_def file_write_def sd_open_write_def)

lemma recordFrame_request:
  "recordFrame e fbo (s\<lparr>captureRequested := b\<rparr>) = (recordFrame e fbo s)\<lparr>captureRequested := b\<rparr>"
  by (simp add: recordFrame_def Let_def file_print_def file_write_def sd_open_write_def)

text \<open>
  C2, as the code has it. While a stream is active, \<open>captureFrame\<close> only sets
  the request flag: the camera, the card and everything else stay as they
  were. The next call of \<open>captureStreamFrame\<close> that gets the mutex and a frame
  clears the flag. It has written that frame to the image file when the card
  opened the file; when the card did not, the request is dropped and the call
  ends as it would have without a request. A call that gets no mutex or no
  frame leaves the request standing.
\<close>

theorem deferred_capture:
  "(streamActive s \<longrightarrow> captureFrame e s = s\<lparr>captureRequested := True\<rparr>) \<and>
   (captureRequested s \<and> sem_ok e \<and> fb e = Some buf \<longrightarrow>
      \<not> captureRequested (captureStreamFrame e s) \<and>
      (open_ok e (''/'' @ timestamp e @ ''.jpg'') \<longrightarrow>
         sd (captureStreamFrame e s) (''/'' @ timestamp e @ ''.jpg'') = Some buf) \<and>
      (\<not> open_ok e (''/'' @ timestamp e @ ''.jpg'') \<longrightarrow>
         captureStreamFrame e s = captureStreamFrame e (s\<lparr>captureRequested := False\<rparr>))) \<and>
   (\<not> sem_ok e \<or> fb e = None \<longrightarrow>
      captureRequested (captureStreamFrame e s) = captureRequested s)"
proof (intro conjI impI)
  assume "streamActive s"
  then show "captureFrame e s = s\<lparr>captureRequested := True\<rparr>"
    by (simp add: captureFrame_def)
next
  assume a: "captureRequested s \<and> sem_ok e \<and> fb e = Some buf"
  then show "\<not> captureRequested (captureStreamFrame e s)"
    by (simp add: captureStreamFrame_def Let_def cam_def recordFrame_keeps sd_open_write_def
        sendToAllClients_def file_write_def)
  {
    assume "open_ok e (''/'' @ timestamp e @ ''.jpg'')"
    with a show "sd (captureStreamFrame e s) (''/'' @ timestamp e @ ''.jpg'') = Some buf"
      by (simp add: captureStreamFrame_def Let_def cam_def recordFrame_keeps sd_open_write_def
          sendToAllClients_def file_write_def)
  }
  {
    assume n: "\<not> open_ok e (''/'' @ timestamp e @ ''.jpg'')"
    have u: "(cam (FbGet True) (cam (SemTake True) (s\<lparr>captureRequested := False\<rparr>)))
               \<lparr>streamFrameBuffer := buf\<rparr> =
             ((cam (FbGet True) (cam (SemTake True) s))\<lparr>streamFrameBuffer := buf\<rparr>)
               \<lparr>captureRequested := False\<rparr>"
      by (simp add: cam_def)
    from a n
    show "captureStreamFrame e s = captureStreamFrame e (s\<lparr>captureRequested := False\<rparr>)"
      by (simp add: captureStreamFrame_def Let_def u recordFrame_request recordFrame_keeps
          sd_open_write_def) (simp add: cam_def)
  }
next
  assume "\<not> sem_ok e \<or> fb e = None"
  then show "captureRequested (captureStreamFrame e s) = captureRequested s"
    by (auto simp add: captureStreamFrame_def Let_def cam_def)
qed

theorem deferred_capture_witness:
  "streamActive streaming \<and> captureFrame env_ok streaming = requested \<and>
   cam_ops requested = [] \<and> sd requested ''/t.jpg'' = None \<and>
   captureRequested requested \<and> sem_ok env_ok \<and> fb env_ok = Some [1, 2, 3] \<and>
   \<not> captureRequested (captureStreamFrame env_ok requested) \<and>
   sd (captureStreamFrame env_ok requested) ''/t.jpg'' = Some [1, 2, 3] \<and>
   \<not> open_ok env_no_card ''/t.jpg'' \<and>
   captureStreamFrame env_no_card requested =
     captureStreamFrame env_no_card (requested\<lparr>captureRequested := False\<rparr>) \<and>
   \<not> sem_ok env_busy \<and> captureRequested (captureStreamFrame env_busy requested)"
proof -
  have h: "streamActive streaming" "captureRequested requested" "sem_ok env_ok"
    "fb env_ok = Some [1, 2, 3]" "open_ok env_ok (''/'' @ timestamp env_ok @ ''.jpg'')"
    "\<not> sem_ok env_busy" "timestamp env_ok = ''t''"
    by (simp_all add: streaming_def requested_def env_ok_def env_busy_def)
  have n: "sem_ok env_no_card" "fb env_no_card = Some [1, 2, 3]"
    "timestamp env_no_card = ''t''" "\<not> open_ok env_no_card p" for p
    by (simp_all add: env_no_card_def env_ok_def)
  have r: "cam_ops requested = []" "sd requested ''/t.jpg'' = None"
    by (simp_all add: requested_def streaming_def boot_state_def)
  show ?thesis
    using h n r deferred_capture [of streaming env_ok "[1, 2, 3]"]
      deferred_capture [of requested env_ok "[1, 2, 3]"]
      deferred_capture [of requested env_no_card "[1, 2, 3]"]
      deferred_capture [of requested env_busy "[1, 2, 3]"]
    by (simp add: requested_def)
qed

text \<open>
  The claim C2 as stated fails: when the card does not open the image file, the
  frame acquisition that serves the request clears it and saves nothing, so the
  still image is never saved.
\<close>

theorem capture_request_lost:
  "captureRequested requested \<and> sem_ok env_no_card \<and> fb env_no_card = Some [1, 2, 3] \<and>
   \<not> captureRequested (captureStreamFrame env_no_card requested) \<and>
   sd (captureStreamFrame env_no_card requested) = Map.empty \<and>
   ws_sent (captureStreamFrame env_no_card requested) = [] \<and>
   cam_ops (captureStreamFrame env_no_card requested) =
     [SemTake True, FbGet True, FbReturn, SemGive]"
  by (simp add: captureStreamFrame_def Let_def cam_def sd_open_write_def requested_def
      streaming_def boot_state_def env_no_card_def env_ok_def)

text \<open>
  C6, as the code has it. When the mutex is not obtained within the timeout,
  the attempt acquires no frame and leaves every global as it was:
  \<open>captureStreamFrame\<close> and the recording task only record the failed take, and
  \<open>captureFrame\<close> only sends its gallery notice. The stream buffer therefore
  still holds the frame of the last successful acquisition, and is empty only
  when there has been none. The turn of the stream loop delivers nothing when
  the buffer is empty, and otherwise treats the retained frame as it treats a
  new one: it delivers it again, unless the turn is a slow one that the
  frame-skip counter skips. The attempt does not wait beyond the timeout: when
  the timeout of a take runs out while the mutex has a holder, that step ends
  the take, and the context goes on behind the acquisition without the mutex.
\<close>

theorem lock_timeout_keeps_state:
  assumes "\<not> sem_ok e"
  shows "captureStreamFrame e s = cam (SemTake False) s \<and>
         streamFrameBuffer (captureStreamFrame e s) = streamFrameBuffer s \<and>
         recordingCaptureTask e s =
           (if isRecording s \<and> videoFile s \<noteq> None \<and> \<not> streamActive s
            then cam (SemTake False) s else s) \<and>
         (\<not> streamActive s \<longrightarrow>
            captureFrame e s = sendToAllClients msg_refresh_gallery (cam (SemTake False) s)) \<and>
         (enters i t s \<and> it_env i = e \<longrightarrow>
            stream_turn i t (c, s) =
              (if streamFrameBuffer s = [] then (False, c, it_dispatch i (cam (SemTake False) s))
               else if capture_time i > word_of_int (frame_time * 2) then
                 if c + 1 < 3 then (False, c + 1, cam (SemTake False) s)
                 else (False, 0, it_dispatch i (send_frame i (cam (SemTake False) s)))
               else (False, c, it_dispatch i (send_frame i (cam (SemTake False) s))))) \<and>
         (timed_out ch \<and> holder q \<noteq> None \<longrightarrow>
            (mpc q = SF_take \<longrightarrow> main_step ch q = q\<lparr>mpc := M_idle\<rparr>) \<and>
            (mpc q = CF_take \<longrightarrow> main_step ch q = q\<lparr>mpc := CF_notify\<rparr>) \<and>
            (rpc q = R_take \<longrightarrow> rec_step ch q = q\<lparr>rpc := R_delay\<rparr>))"
proof -
  have k: "captureStreamFrame e s = cam (SemTake False) s"
    using assms by (simp add: captureStreamFrame_def)
  have b: "streamFrameBuffer (cam (SemTake False) s) = streamFrameBuffer s"
    by (simp add: cam_def)
  have r: "recordingCaptureTask e s =
             (if isRecording s \<and> videoFile s \<noteq> None \<and> \<not> streamActive s
              then cam (SemTake False) s else s)"
    using assms by (auto simp add: recordingCaptureTask_def)
  have f: "\<not> streamActive s \<longrightarrow>
             captureFrame e s = sendToAllClients msg_refresh_gallery (cam (SemTake False) s)"
    using assms by (simp add: captureFrame_def)
  have l: "enters i t s \<and> it_env i = e \<longrightarrow>
            stream_turn i t (c, s) =
              (if streamFrameBuffer s = [] then (False, c, it_dispatch i (cam (SemTake False) s))
               else if capture_time i > word_of_int (frame_time * 2) then
                 if c + 1 < 3 then (False, c + 1, cam (SemTake False) s)
                 else (False, 0, it_dispatch i (send_frame i (cam (SemTake False) s)))
               else (False, c, it_dispatch i (send_frame i (cam (SemTake False) s))))"
    using k b by (auto simp add: stream_turn_def enters_def Let_def)
  have m: "timed_out ch \<and> holder q \<noteq> None \<longrightarrow>
            (mpc q = SF_take \<longrightarrow> main_step ch q = q\<lparr>mpc := M_idle\<rparr>) \<and>
            (mpc q = CF_take \<longrightarrow> main_step ch q = q\<lparr>mpc := CF_notify\<rparr>) \<and>
            (rpc q = R_take \<longrightarrow> rec_step ch q = q\<lparr>rpc := R_delay\<rparr>)"
    by (simp add: main_step_def rec_step_def sem_take_def)
  from k b r f l m show ?thesis by simp
qed

lemma busy_turn_enters:
  "enters turn_busy 0 retained" "it_env turn_busy = env_busy"
  "streamFrameBuffer retained = [7, 8, 9]"
  "\<not> capture_time turn_busy > word_of_int (frame_time * 2)"
  by (simp_all add: enters_def turn_busy_def turn_fast_def retained_def streaming_def
      boot_state_def STREAM_TIMEOUT_def capture_time_def frame_time_def target_fps_def)

lemma held_states:
  "timed_out (give_up c)" "holder held_by_recorder \<noteq> None" "mpc held_by_recorder = SF_take"
  "holder held_by_foreground \<noteq> None" "rpc held_by_foreground = R_take"
  by (simp_all add: give_up_def pick_def held_by_recorder_def held_by_foreground_def
      sys_init_def)

theorem lock_timeout_keeps_state_witness:
  "\<not> sem_ok env_busy \<and> \<not> streamActive boot_state \<and>
   streamFrameBuffer (captureStreamFrame env_busy boot_state) = [] \<and>
   cam_ops (captureStreamFrame env_busy boot_state) = [SemTake False] \<and>
   recordingCaptureTask env_busy rec47 = cam (SemTake False) rec47 \<and>
   ws_sent (captureFrame env_busy boot_state) = [msg_refresh_gallery] \<and>
   enters turn_busy 0 retained \<and>
   stream_turn turn_busy 0 (0, retained) =
     (False, 0, it_dispatch turn_busy (send_frame turn_busy (cam (SemTake False) retained))) \<and>
   timed_out (give_up Foreground) \<and> holder held_by_recorder \<noteq> None \<and>
   main_step (give_up Foreground) held_by_recorder = held_by_recorder\<lparr>mpc := M_idle\<rparr> \<and>
   rec_step (give_up Recorder) held_by_foreground = held_by_foreground\<lparr>rpc := R_delay\<rparr>"
proof -
  have h: "\<not> sem_ok env_busy" by (simp add: env_busy_def)
  have b: "\<not> streamActive boot_state" "streamFrameBuffer boot_state = []"
    "cam_ops boot_state = []" "ws_sent boot_state = []"
    by (simp_all add: boot_state_def)
  have r: "isRecording rec47 \<and> videoFile rec47 \<noteq> None \<and> \<not> streamActive rec47"
    by (simp add: rec47_def boot_state_def)
  have p: "streamFrameBuffer (captureStreamFrame env_busy boot_state) = [] \<and>
           cam_ops (captureStreamFrame env_busy boot_state) = [SemTake False] \<and>
           ws_sent (captureFrame env_busy boot_state) = [msg_refresh_gallery]"
    using b lock_timeout_keeps_state [OF h, where s = boot_state]
    by (simp add: cam_def sendToAllClients_def)
  have q: "recordingCaptureTask env_busy rec47 = cam (SemTake False) rec47"
    using r lock_timeout_keeps_state [OF h, where s = rec47] by simp
  have t: "stream_turn turn_busy 0 (0, retained) =
     (False, 0, it_dispatch turn_busy (send_frame turn_busy (cam (SemTake False) retained)))"
    using busy_turn_enters
      lock_timeout_keeps_state [OF h, where s = retained and i = turn_busy and t = 0 and c = 0]
    by simp
  have m: "main_step (give_up Foreground) held_by_recorder = held_by_recorder\<lparr>mpc := M_idle\<rparr>"
    using held_states
      lock_timeout_keeps_state [OF h, where ch = "give_up Foreground" and q = held_by_recorder]
    by simp
  have n: "rec_step (give_up Recorder) held_by_foreground = held_by_foreground\<lparr>rpc := R_delay\<rparr>"
    using held_states
      lock_timeout_keeps_state [OF h, where ch = "give_up Recorder" and q = held_by_foreground]
    by simp
  from h b(1) p q t m n busy_turn_enters(1) held_states(1) [of Foreground] held_states(2) show ?thesis by simp
qed

text \<open>
  The claim C6 as stated fails: after a frame has been delivered, a turn of the
  stream loop whose take times out finds the old frame in the buffer and writes
  it to the client again.
\<close>

theorem lock_timeout_stale_frame:
  "\<not> sem_ok env_busy \<and>
   streamFrameBuffer (captureStreamFrame env_busy retained) = [7, 8, 9] \<and>
   stream_turn turn_busy 0 (0, retained) =
     (False, 0, send_frame turn_busy (cam (SemTake False) retained)) \<and>
   client_out (send_frame turn_busy (cam (SemTake False) retained)) \<noteq> []"
  by (simp add: env_busy_def env_ok_def captureStreamFrame_def retained_def streaming_def
      boot_state_def cam_def stream_turn_def turn_busy_def turn_fast_def STREAM_TIMEOUT_def
      capture_time_def frame_time_def target_fps_def send_frame_def client_print_def
      client_write_def crlf_def bytes_of_def)

subsection \<open>Gallery cache\<close>

lemma sd_remove_dirty: "galleryDirty (snd (sd_remove e p s)) = galleryDirty s"
  by (simp add: sd_remove_def)

lemma delete_entries_dirty: "galleryDirty (delete_entries e es s) = galleryDirty s"
  by (induction e es s rule: delete_entries.induct) (simp_all add: sd_remove_dirty)

text \<open>
  C4, as the code has it. The dirty flag is set, and otherwise left as it was:
  by \<open>captureFrame\<close> when no stream is active and the mutex, a frame and the
  image file were obtained; by \<open>handleDeleteImage\<close> when the named file exists
  and its removal succeeds; by \<open>handleDeleteAll\<close> when the root directory
  opens, whatever the removals do; by \<open>stopRecording\<close> when a recording was
  active, whatever the metadata file does.
\<close>

theorem galleryDirty_after:
  "galleryDirty (captureFrame e s) =
     (galleryDirty s \<or>
      (\<not> streamActive s \<and> sem_ok e \<and> fb e \<noteq> None \<and> open_ok e (''/'' @ timestamp e @ ''.jpg''))) \<and>
   galleryDirty (handleDeleteImage e arg s) =
     (galleryDirty s \<or>
      (\<exists>n. arg = Some n \<and> sd_exists (''/'' @ n) s \<and> remove_ok e (''/'' @ n))) \<and>
   galleryDirty (handleDeleteAll e s) = (galleryDirty s \<or> root_ok e) \<and>
   galleryDirty (stopRecording e s) = (galleryDirty s \<or> isRecording s)"
proof (intro conjI)
  show "galleryDirty (captureFrame e s) =
     (galleryDirty s \<or>
      (\<not> streamActive s \<and> sem_ok e \<and> fb e \<noteq> None \<and> open_ok e (''/'' @ timestamp e @ ''.jpg'')))"
    by (auto simp add: captureFrame_def Let_def cam_def discard_stale_def sd_open_write_def
        sendToAllClients_def file_write_def split: option.splits)
  show "galleryDirty (handleDeleteImage e arg s) =
     (galleryDirty s \<or>
      (\<exists>n. arg = Some n \<and> sd_exists (''/'' @ n) s \<and> remove_ok e (''/'' @ n)))"
    by (auto simp add: handleDeleteImage_def Let_def sd_remove_def server_send_def
        split: option.splits)
  show "galleryDirty (handleDeleteAll e s) = (galleryDirty s \<or> root_ok e)"
    by (simp add: handleDeleteAll_def Let_def server_send_def sendToAllClients_def
        delete_entries_dirty)
  show "galleryDirty (stopRecording e s) = (galleryDirty s \<or> isRecording s)"
    by (simp add: stopRecording_def Let_def sd_open_write_def file_print_def file_write_def
        sendToAllClients_def)
qed

theorem galleryDirty_after_witness:
  "\<not> galleryDirty cached_one \<and>
   galleryDirty (captureFrame env_ok cached_one) \<and>
   galleryDirty (handleDeleteImage env_ok (Some ''a.jpg'') cached_one) \<and>
   \<not> galleryDirty (handleDeleteImage env_ok (Some ''b.jpg'') cached_one) \<and>
   galleryDirty (handleDeleteAll env_locked cached_one) \<and>
   \<not> galleryDirty (stopRecording env_ok cached_one)"
proof -
  have c: "\<not> galleryDirty cached_one" "\<not> streamActive cached_one" "\<not> isRecording cached_one"
    "sd_exists ''/a.jpg'' cached_one" "\<not> sd_exists ''/b.jpg'' cached_one"
    by (simp_all add: cached_one_def boot_state_def sd_exists_def)
  have e: "sem_ok env_ok" "fb env_ok \<noteq> None" "open_ok env_ok p" "remove_ok env_ok p"
    "root_ok env_locked" for p
    by (simp_all add: env_ok_def env_locked_def)
  show ?thesis
    using c e galleryDirty_after [of env_ok cached_one "Some ''a.jpg''"]
      galleryDirty_after [of env_ok cached_one "Some ''b.jpg''"]
      galleryDirty_after [of env_locked cached_one None]
    by simp
qed

text \<open>
  The claim C4 as stated fails: a removal that the card refuses leaves the
  flag clear, and the request is answered with status 500.
\<close>

theorem delete_failure_leaves_cache_clean:
  \<open>sd_exists ''/a.jpg'' cached_one \<and>
   \<not> galleryDirty (handleDeleteImage env_locked (Some ''a.jpg'') cached_one) \<and>
   http_sent (handleDeleteImage env_locked (Some ''a.jpg'') cached_one) =
     [(500, ''{"status":"failed to delete"}'')]\<close>
  by (simp add: handleDeleteImage_def sd_exists_def sd_remove_def env_locked_def env_ok_def
      cached_one_def boot_state_def server_send_def)

subsection \<open>Streaming session\<close>

text \<open>
  C5 at the early return. When the client is gone right after the request,
  \<open>handleStream\<close> returns with the active flag cleared, having sent the notice
  that the stream started and no notice that it stopped.
\<close>

theorem handleStream_immediate_disconnect:
  "handleStream e False turns s =
     Some (s\<lparr>streamActive := False, ws_sent := ws_sent s @ [msg_stream_started]\<rparr>) \<and>
   msg_stream_started \<noteq> msg_stream_stopped"
  by (simp add: handleStream_def Let_def sendToAllClients_def msg_stream_started_def
      msg_stream_stopped_def)

text \<open>Every way out of the loop itself clears the flag and sends the notice last.\<close>

lemma handleStream_loop_exit:
  "handleStream e True turns s = Some s' \<Longrightarrow>
   \<not> streamActive s' \<and> ws_sent s' \<noteq> [] \<and> last (ws_sent s') = msg_stream_stopped"
  by (auto simp add: handleStream_def Let_def sendToAllClients_def split: option.splits)

lemma stream_turn_counter:
  assumes "stream_turn i t (c, s) = (False, c', s')"
  shows "c' = (if slow_frame i s then (if c + 1 < 3 then c + 1 else 0) else c)"
  using assms
  by (auto simp add: stream_turn_def slow_frame_def Let_def split: if_splits)

lemma stream_turn_exit_counter:
  assumes "stream_turn i t (c, s) = (True, c', s')"
  shows "c' = c"
  using assms
  by (auto simp add: stream_turn_def Let_def split: if_splits)

text \<open>
  When the loop is left, the counter is the number of slow frames of the
  session, taken modulo 3: turns that are not slow do not enter into it.
\<close>

lemma stream_loop_counter:
  "0 \<le> c \<Longrightarrow> c < 3 \<Longrightarrow> stream_loop turns t (c, s) = Some (c', s') \<Longrightarrow>
   c' = (c + int (slow_turns turns t (c, s))) mod 3"
proof (induction turns arbitrary: c s)
  case Nil
  then show ?case by simp
next
  case (Cons i rest)
  obtain b c1 s1 where st: "stream_turn i t (c, s) = (b, c1, s1)"
    by (metis prod_cases3)
  show ?case
  proof (cases b)
    case True
    with st Cons.prems have "c' = c"
      using stream_turn_exit_counter [of i t c s c1 s1] by simp
    with True st Cons.prems show ?thesis by simp
  next
    case False
    with st have c1: "c1 = (if slow_frame i s then (if c + 1 < 3 then c + 1 else 0) else c)"
      using stream_turn_counter [of i t c s c1 s1] by simp
    with Cons.prems have r: "0 \<le> c1" "c1 < 3"
      by (auto split: if_splits)
    from False st Cons.prems have "stream_loop rest t (c1, s1) = Some (c', s')"
      by simp
    with r have "c' = (c1 + int (slow_turns rest t (c1, s1))) mod 3"
      by (rule Cons.IH)
    moreover have "slow_turns (i # rest) t (c, s) =
        (if slow_frame i s then 1 else 0) + slow_turns rest t (c1, s1)"
      using False st by simp
    ultimately show ?thesis
      using c1 Cons.prems(1,2) by (auto split: if_splits simp add: algebra_simps) presburger+
  qed
qed

text \<open>
  C9, as the code has it. In a turn that gets past the loop condition, a frame
  in the buffer whose capture took longer than twice the frame interval is a
  slow frame. The first and the second slow frame since the last reset raise
  the counter and end the turn at once, the frame not delivered; the third
  sets the counter to zero, delivers the frame and goes on with the turn. A
  turn that is not slow leaves the counter as it is, and the session goes on.
  So the counter at the end is the number of slow frames modulo 3, whether or
  not they came in a row.
\<close>

theorem slow_frame_policy:
  assumes "0 \<le> c" and "c < 3"
  shows
    "(enters i t s \<and> slow_frame i s \<and> c < 2 \<longrightarrow>
        stream_turn i t (c, s) = (False, c + 1, captureStreamFrame (it_env i) s)) \<and>
     (enters i t s \<and> slow_frame i s \<and> c = 2 \<longrightarrow>
        stream_turn i t (c, s) =
          (False, 0, it_dispatch i (send_frame i (captureStreamFrame (it_env i) s)))) \<and>
     (enters i t s \<and> \<not> slow_frame i s \<longrightarrow>
        fst (stream_turn i t (c, s)) = False \<and> fst (snd (stream_turn i t (c, s))) = c) \<and>
     (stream_loop turns t (c, s) = Some (c', s') \<longrightarrow>
        c' = (c + int (slow_turns turns t (c, s))) mod 3)"
proof (intro conjI impI)
  assume "enters i t s \<and> slow_frame i s \<and> c < 2"
  then show "stream_turn i t (c, s) = (False, c + 1, captureStreamFrame (it_env i) s)"
    by (simp add: stream_turn_def enters_def slow_frame_def Let_def)
next
  assume "enters i t s \<and> slow_frame i s \<and> c = 2"
  then show "stream_turn i t (c, s) =
      (False, 0, it_dispatch i (send_frame i (captureStreamFrame (it_env i) s)))"
    by (simp add: stream_turn_def enters_def slow_frame_def Let_def)
next
  assume a: "enters i t s \<and> \<not> slow_frame i s"
  then show "fst (stream_turn i t (c, s)) = False"
    by (auto simp add: stream_turn_def enters_def slow_frame_def Let_def)
  from a show "fst (snd (stream_turn i t (c, s))) = c"
    by (auto simp add: stream_turn_def enters_def slow_frame_def Let_def)
next
  assume "stream_loop turns t (c, s) = Some (c', s')"
  with assms show "c' = (c + int (slow_turns turns t (c, s))) mod 3"
    by (rule stream_loop_counter)
qed

lemma streaming_turns:
  "enters turn_slow 0 streaming" "slow_frame turn_slow streaming"
  "enters turn_fast 0 streaming" "\<not> slow_frame turn_fast streaming"
  by (simp_all add: enters_def slow_frame_def turn_slow_def turn_fast_def streaming_def
      boot_state_def STREAM_TIMEOUT_def capture_time_def frame_time_def target_fps_def
      captureStreamFrame_def env_ok_def cam_def Let_def)

theorem slow_frame_policy_witness:
  "enters turn_slow 0 streaming \<and> slow_frame turn_slow streaming \<and>
   stream_turn turn_slow 0 (1, streaming) =
     (False, 2, captureStreamFrame (it_env turn_slow) streaming) \<and>
   stream_turn turn_slow 0 (2, streaming) =
     (False, 0, it_dispatch turn_slow
        (send_frame turn_slow (captureStreamFrame (it_env turn_slow) streaming))) \<and>
   enters turn_fast 0 streaming \<and> \<not> slow_frame turn_fast streaming \<and>
   fst (snd (stream_turn turn_fast 0 (2, streaming))) = 2"
  using streaming_turns
    slow_frame_policy [of 1 turn_slow 0 streaming "[]" 0 streaming]
    slow_frame_policy [of 2 turn_slow 0 streaming "[]" 0 streaming]
    slow_frame_policy [of 2 turn_fast 0 streaming "[]" 0 streaming]
  by simp

text \<open>
  The claim C9 as stated fails: a turn that is not slow does not restart the
  count. After two slow frames and a fast one the counter is 2, and it is 2 as
  well after slow and fast frames in turn, so that the next slow frame is
  delivered as the third.
\<close>

theorem fast_turn_keeps_count:
  "map_option fst
     (stream_loop [turn_slow, turn_slow, turn_fast, turn_gone] 0 (0, streaming)) = Some 2 \<and>
   map_option fst
     (stream_loop [turn_slow, turn_fast, turn_slow, turn_fast, turn_gone] 0 (0, streaming)) =
     Some 2"
  by code_simp

subsection \<open>Mutual exclusion on the camera\<close>

lemma step_inv: "mutex_inv s \<Longrightarrow> mutex_inv (step ch s)"
  by (cases "who ch"; cases "mpc s"; cases "rpc s"; cases "call ch")
     (auto simp add: mutex_inv_def step_def main_step_def rec_step_def sem_take_def)

lemma run_inv: "mutex_inv s \<Longrightarrow> mutex_inv (run sched s)"
  by (induction sched arbitrary: s) (simp_all add: step_inv)

lemma init_inv: "mutex_inv sys_init"
  by (simp add: mutex_inv_def sys_init_def)

lemma main_camera_inside: "main_at_camera pc \<Longrightarrow> main_inside pc"
  by (cases pc) simp_all

lemma rec_camera_inside: "rec_at_camera pc \<Longrightarrow> rec_inside pc"
  by (cases pc) simp_all

text \<open>
  C1. After any interleaving of steps of the foreground context and of the
  recording task, the two are not both between a successful take of the camera
  mutex and the give that ends it; and a context whose next statement calls
  \<open>esp_camera_fb_get\<close> or \<open>esp_camera_fb_return\<close> holds the mutex.
\<close>

theorem camera_mutual_exclusion:
  "\<not> (main_inside (mpc (run sched sys_init)) \<and> rec_inside (rpc (run sched sys_init))) \<and>
   (main_at_camera (mpc (run sched sys_init)) \<longrightarrow> holder (run sched sys_init) = Some Foreground) \<and>
   (rec_at_camera (rpc (run sched sys_init)) \<longrightarrow> holder (run sched sys_init) = Some Recorder)"
proof -
  have "mutex_inv (run sched sys_init)"
    using init_inv by (rule run_inv)
  then show ?thesis
    using main_camera_inside [of "mpc (run sched sys_init)"]
      rec_camera_inside [of "rpc (run sched sys_init)"]
    by (auto simp add: mutex_inv_def)
qed

lemma contended_run:
  "mpc (run contended sys_init) = SF_get \<and> rpc (run contended sys_init) = R_delay"
  by (simp add: contended_def sys_init_def pick_def step_def main_step_def rec_step_def
      sem_take_def)

lemma contended_capture_run:
  "mpc (run contended_capture sys_init) = CF_notify \<and>
   rpc (run contended_capture sys_init) = R_get"
  by (simp add: contended_capture_def sys_init_def pick_def step_def main_step_def
      rec_step_def sem_take_def)

theorem camera_mutual_exclusion_witness:
  "main_at_camera (mpc (run contended sys_init)) \<and>
   holder (run contended sys_init) = Some Foreground \<and>
   rpc (run contended sys_init) = R_delay \<and>
   rec_at_camera (rpc (run contended_capture sys_init)) \<and>
   holder (run contended_capture sys_init) = Some Recorder \<and>
   mpc (run contended_capture sys_init) = CF_notify"
  using camera_mutual_exclusion [of contended] contended_run
    camera_mutual_exclusion [of contended_capture] contended_capture_run
  by simp

end
